theory Spec2Isabelle
  imports Main
begin

section \<open>Calendar dates\<close>

text \<open>
  \<^verbatim>\<open>copy_date\<close> (\<^verbatim>\<open>src/date_copy_osx.py\<close>, lines 95 to 128) obtains its text from the
  \<^verbatim>\<open>date\<close> utility of the host (the file is the OS X variant, so the BSD utility with its
  \<^verbatim>\<open>-v\<close> adjustment). The utility and the system clock are outside the repository; they are
  modelled here as far as the three command lines of \<^verbatim>\<open>copy_date\<close> use them: the clock
  is a parameter (the local calendar date at the moment of the call), the \<^verbatim>\<open>-v\<close> option
  moves that date by whole days, and the format is interpreted conversion by conversion
  in the C locale.
\<close>

record date =
  year :: int
  month :: nat
  day :: nat

definition is_leap :: "int \<Rightarrow> bool" where
  "is_leap y = (y mod 4 = 0 \<and> (y mod 100 \<noteq> 0 \<or> y mod 400 = 0))"

definition days_in_month :: "int \<Rightarrow> nat \<Rightarrow> nat" where
  "days_in_month y m =
     (if m = 2 then (if is_leap y then 29 else 28)
      else if m = 4 \<or> m = 6 \<or> m = 9 \<or> m = 11 then 30
      else 31)"

definition valid_date :: "date \<Rightarrow> bool" where
  "valid_date d =
     (1 \<le> month d \<and> month d \<le> 12 \<and> 1 \<le> day d \<and> day d \<le> days_in_month (year d) (month d))"

text \<open>One day forward and one day backward, stepping over the end of a month and of a year.\<close>

definition next_day :: "date \<Rightarrow> date" where
  "next_day d =
     (if day d < days_in_month (year d) (month d) then d\<lparr>day := day d + 1\<rparr>
      else if month d < 12 then \<lparr>year = year d, month = month d + 1, day = 1\<rparr>
      else \<lparr>year = year d + 1, month = 1, day = 1\<rparr>)"

definition prev_day :: "date \<Rightarrow> date" where
  "prev_day d =
     (if 1 < day d then d\<lparr>day := day d - 1\<rparr>
      else if 1 < month d then
        \<lparr>year = year d, month = month d - 1, day = days_in_month (year d) (month d - 1)\<rparr>
      else \<lparr>year = year d - 1, month = 12, day = 31\<rparr>)"

text \<open>
  The number of a day in the proleptic Gregorian calendar (1 January of year 1 is day 1).
  It is the yardstick for "whole days" in the statements about date arithmetic; no function
  of the program computes it.
\<close>

definition days_before_year :: "int \<Rightarrow> int" where
  "days_before_year y = 365 * (y - 1) + (y - 1) div 4 - (y - 1) div 100 + (y - 1) div 400"

definition days_before_month :: "int \<Rightarrow> nat \<Rightarrow> nat" where
  "days_before_month y m = sum_list (map (days_in_month y) [1..<m])"

definition day_number :: "date \<Rightarrow> int" where
  "day_number d = days_before_year (year d) + int (days_before_month (year d) (month d)) + int (day d)"

section \<open>The format \<^verbatim>\<open>%d %b %Y\<close>\<close>

definition digit_char :: "nat \<Rightarrow> char" where
  "digit_char n = ''0123456789'' ! (n mod 10)"

fun digits :: "nat \<Rightarrow> string" where
  "digits n = (if n < 10 then [digit_char n] else digits (n div 10) @ [digit_char (n mod 10)])"

declare digits.simps [simp del]

text \<open>The C conversion \<^verbatim>\<open>%02d\<close> of a number that is not negative: at least two digits.\<close>

definition conv_02d :: "nat \<Rightarrow> string" where
  "conv_02d n = (if n < 10 then CHR ''0'' # digits n else digits n)"

text \<open>
  \<^verbatim>\<open>%Y\<close>, the year with its century: the hundreds and the last two digits, each through
  \<^verbatim>\<open>%02d\<close>, so that a year from 0 to 9999 has four digits.
\<close>

definition conv_year :: "int \<Rightarrow> string" where
  "conv_year y =
     (if 0 \<le> y then conv_02d (nat y div 100) @ conv_02d (nat y mod 100)
      else CHR ''-'' # digits (nat (- y) div 100) @ conv_02d (nat (- y) mod 100))"

text \<open>\<^verbatim>\<open>%b\<close>, the abbreviated month name of the C locale; a month out of range prints \<^verbatim>\<open>?\<close>.\<close>

definition month_abbr :: "nat \<Rightarrow> string" where
  "month_abbr m =
     (if 1 \<le> m \<and> m \<le> 12
      then [''Jan'', ''Feb'', ''Mar'', ''Apr'', ''May'', ''Jun'',
            ''Jul'', ''Aug'', ''Sep'', ''Oct'', ''Nov'', ''Dec''] ! (m - 1)
      else ''?'')"

text \<open>
  One conversion specifier. \<^verbatim>\<open>%d\<close> is the day of the month as a two-digit decimal number
  (01 to 31). \<open>None\<close> stands for a specifier outside the modelled fragment.
\<close>

definition conv :: "char \<Rightarrow> date \<Rightarrow> string option" where
  "conv k d =
     (if k = CHR ''d'' then Some (conv_02d (day d))
      else if k = CHR ''b'' then Some (month_abbr (month d))
      else if k = CHR ''Y'' then Some (conv_year (year d))
      else if k = CHR ''%'' then Some ''%''
      else None)"

fun strftime :: "string \<Rightarrow> date \<Rightarrow> string option" where
  "strftime [] d = Some []"
| "strftime (c # cs) d =
     (if c = CHR ''%'' then
        (case cs of
           [] \<Rightarrow> None
         | k # rest \<Rightarrow>
             (case conv k d of
                None \<Rightarrow> None
              | Some s \<Rightarrow> map_option (\<lambda>t. s @ t) (strftime rest d)))
      else map_option (\<lambda>t. c # t) (strftime cs d))"

section \<open>The shell command line and the \<^verbatim>\<open>date\<close> utility\<close>

text \<open>
  \<^verbatim>\<open>subprocess.check_output(cmd, shell=True)\<close> hands the string to the shell. Of the shell's
  grammar the three command lines use blanks between words and one pair of double quotes,
  which groups a word and is removed. \<open>sh_words w q s\<close> splits \<open>s\<close>, with \<open>w\<close> the word under
  construction (if any) and \<open>q\<close> telling whether a double quote is open.
\<close>

fun sh_words :: "string option \<Rightarrow> bool \<Rightarrow> string \<Rightarrow> string list option" where
  "sh_words w q [] =
     (if q then None else Some (case w of None \<Rightarrow> [] | Some s \<Rightarrow> [s]))"
| "sh_words w q (c # cs) =
     (if c = CHR 0x22 then sh_words (Some (case w of None \<Rightarrow> [] | Some s \<Rightarrow> s)) (\<not> q) cs
      else if c = CHR '' '' \<and> \<not> q then
        (case w of
           None \<Rightarrow> sh_words None False cs
         | Some s \<Rightarrow> map_option (\<lambda>ws. s # ws) (sh_words None False cs))
      else sh_words (Some ((case w of None \<Rightarrow> [] | Some s \<Rightarrow> s) @ [c])) q cs)"

definition is_digit :: "char \<Rightarrow> bool" where
  "is_digit c = (c \<in> set ''0123456789'')"

fun nat_of_digits :: "nat \<Rightarrow> string \<Rightarrow> nat" where
  "nat_of_digits acc [] = acc"
| "nat_of_digits acc (c # cs) = nat_of_digits (10 * acc + (of_char c - 48)) cs"

text \<open>
  The argument of \<^verbatim>\<open>-v\<close>: a sign, a number and a unit. With a sign the date moves forward or
  backward by that many units; only the unit \<^verbatim>\<open>d\<close> (days) is modelled.
\<close>

definition vary :: "string \<Rightarrow> date \<Rightarrow> date option" where
  "vary v d =
     (case v of
        [] \<Rightarrow> None
      | sg # rest \<Rightarrow>
          (if (sg = CHR ''+'' \<or> sg = CHR ''-'') \<and> 2 \<le> length rest \<and> last rest = CHR ''d''
              \<and> list_all is_digit (butlast rest)
           then Some (((if sg = CHR ''+'' then next_day else prev_day)
                         ^^ nat_of_digits 0 (butlast rest)) d)
           else None))"

text \<open>
  The utility on its arguments, with \<open>d\<close> the date of the clock: each \<^verbatim>\<open>-v\<close> adjusts the date,
  a final \<^verbatim>\<open>+format\<close> prints it followed by a newline. \<open>None\<close> stands for a failing
  command (which \<^verbatim>\<open>check_output\<close> turns into \<^verbatim>\<open>CalledProcessError\<close>) and for a command line
  outside the modelled fragment.
\<close>

fun date_cmd :: "date \<Rightarrow> string list \<Rightarrow> string option" where
  "date_cmd d [] = None"
| "date_cmd d (a # as) =
     (if take 2 a = ''-v'' then
        (case vary (drop 2 a) d of
           None \<Rightarrow> None
         | Some d' \<Rightarrow> date_cmd d' as)
      else if take 1 a = ''+'' \<and> as = [] then
        map_option (\<lambda>s. s @ [CHR 0x0A]) (strftime (drop 1 a) d)
      else None)"

definition check_output :: "date \<Rightarrow> string \<Rightarrow> string option" where
  "check_output now cmd =
     (case sh_words None False cmd of
        None \<Rightarrow> None
      | Some [] \<Rightarrow> None
      | Some (prog # args) \<Rightarrow> if prog = ''date'' then date_cmd now args else None)"

section \<open>The application state and \<^verbatim>\<open>copy_date\<close>\<close>

datatype button = yesterday_btn | today_btn | tomorrow_btn

text \<open>
  What \<^verbatim>\<open>copy_date\<close> reads and writes: the clipboard of the toolkit (\<^verbatim>\<open>clipboard_clear\<close> empties
  it, \<^verbatim>\<open>clipboard_append\<close> adds to its end), the widget holding the keyboard focus, the
  attribute \<^verbatim>\<open>self.output\<close> (absent until the first call; \<open>output\<close> is a keyword here,
  hence \<open>self_output\<close>), the two Boolean variables of the
  "Spacing" submenu, and what was written to standard error.
\<close>

record app =
  clipboard :: string
  focus :: "button option"
  self_output :: "string option"
  leading_check :: bool
  trailing_check :: bool
  stderr :: string

text \<open>
  The state after start-up, over the clipboard content \<open>clip\<close> found there:
  \<^verbatim>\<open>spacing_submenu\<close> creates both variables with \<^verbatim>\<open>tk.BooleanVar()\<close>, whose initial value is
  false ("Default is both off").
\<close>

definition init_app :: "string \<Rightarrow> app" where
  "init_app clip =
     \<lparr>clipboard = clip, focus = None, self_output = None,
      leading_check = False, trailing_check = False, stderr = []\<rparr>"

text \<open>The two check buttons of the menu (on value true, off value false) flip their variable.\<close>

definition toggle_leading :: "app \<Rightarrow> app" where
  "toggle_leading st = st\<lparr>leading_check := \<not> leading_check st\<rparr>"

definition toggle_trailing :: "app \<Rightarrow> app" where
  "toggle_trailing st = st\<lparr>trailing_check := \<not> trailing_check st\<rparr>"

text \<open>
  How a call ends: it returns, or \<^verbatim>\<open>sys.exit(1)\<close> raises \<^verbatim>\<open>SystemExit\<close> with the exit status,
  or \<^verbatim>\<open>check_output\<close> raises. Each carries the state reached at that point.
\<close>

datatype outcome = Returned app | SystemExit int app | CalledProcessError app

text \<open>Lines 117 to 128: run the command, drop the last character, pad, append.\<close>

definition run_and_append :: "date \<Rightarrow> string \<Rightarrow> app \<Rightarrow> outcome" where
  "run_and_append now cmd st =
     (case check_output now cmd of
        None \<Rightarrow> CalledProcessError st
      | Some raw \<Rightarrow>
          (let out0 = butlast raw;
               out1 = (if trailing_check st then out0 @ '' '' else out0);
               out2 = (if leading_check st then '' '' @ out1 else out1)
           in Returned (st\<lparr>self_output := Some out2, clipboard := clipboard st @ out2\<rparr>)))"

text \<open>
  Lines 104 to 115: the \<^verbatim>\<open>if\<close>/\<^verbatim>\<open>elif\<close> chain picks the button that receives the focus and
  the command line, or ends in the \<^verbatim>\<open>else\<close> branch (\<open>None\<close>).
\<close>

definition choose_cmd :: "int \<Rightarrow> (button \<times> string) option" where
  \<open>choose_cmd option =
     (if option = 1 then Some (yesterday_btn, ''date -v-1d +"%d %b %Y"'')
      else if option = 2 then Some (today_btn, ''date +"%d %b %Y"'')
      else if option = 3 then Some (tomorrow_btn, ''date -v+1d +"%d %b %Y"'')
      else None)\<close>

definition copy_date :: "date \<Rightarrow> int \<Rightarrow> app \<Rightarrow> outcome" where
  "copy_date now option st0 =
     (let st = st0\<lparr>clipboard := []\<rparr> in
      case choose_cmd option of
        Some (btn, cmd) \<Rightarrow> run_and_append now cmd (st\<lparr>focus := Some btn\<rparr>)
      | None \<Rightarrow>
          SystemExit 1 (st\<lparr>stderr := stderr st @ ''copy_date was called with an invalid arg''\<rparr>))"

section \<open>Notions used in the statements\<close>

text \<open>The state in which a call ends, however it ends.\<close>

fun final_state :: "outcome \<Rightarrow> app" where
  "final_state (Returned st) = st"
| "final_state (SystemExit c st) = st"
| "final_state (CalledProcessError st) = st"

text \<open>The text of a date under the format \<^verbatim>\<open>%d %b %Y\<close>, in closed form.\<close>

definition format_date :: "date \<Rightarrow> string" where
  "format_date d = conv_02d (day d) @ '' '' @ month_abbr (month d) @ '' '' @ conv_year (year d)"

text \<open>The date that the command line of a valid option prints, given the date of the clock.\<close>

definition target_date :: "date \<Rightarrow> int \<Rightarrow> date" where
  "target_date now option =
     (if option = 1 then prev_day now else if option = 3 then next_day now else now)"

text \<open>A text between the optional leading and trailing blank.\<close>

definition padded :: "bool \<Rightarrow> bool \<Rightarrow> string \<Rightarrow> string" where
  "padded leading trailing s =
     (if leading then '' '' else []) @ s @ (if trailing then '' '' else [])"

section \<open>Calendar arithmetic\<close>

lemma days_in_month_bounds: "28 \<le> days_in_month y m \<and> days_in_month y m \<le> 31"
  by (simp add: days_in_month_def)

lemma days_in_month_12: "days_in_month y 12 = 31"
  by (simp add: days_in_month_def)



lemma div_step:
  fixes y k :: int
  assumes "0 < k"
  shows "y div k = (y - 1) div k + (if y mod k = 0 then 1 else 0)"
proof -
  define q where "q = (y - 1) div k"
  define r where "r = (y - 1) mod k"
  have r: "0 \<le> r" "r < k" using assms by (simp_all add: r_def)
  have y: "y = r + 1 + q * k" by (simp add: q_def r_def)
  show ?thesis
  proof (cases "r + 1 < k")
    case True
    with r have "(r + 1 + q * k) div k = q" "(r + 1 + q * k) mod k = r + 1"
      by simp_all
    with r show ?thesis unfolding q_def [symmetric] y [symmetric] by simp
  next
    case False
    with r have k: "r + 1 = k" by simp
    have "y = (q + 1) * k" using y k by (simp add: algebra_simps)
    then have "y div k = q + 1" "y mod k = 0" using assms by simp_all
    then show ?thesis unfolding q_def [symmetric] by simp
  qed
qed

lemma mod_100_4: "(y::int) mod 100 = 0 \<Longrightarrow> y mod 4 = 0"
  using mod_mod_cancel [of 4 100 y] by simp

lemma mod_400_100: "(y::int) mod 400 = 0 \<Longrightarrow> y mod 100 = 0"
  using mod_mod_cancel [of 100 400 y] by simp

lemma days_before_year_Suc:
  "days_before_year (y + 1) = days_before_year y + (if is_leap y then 366 else 365)"
proof -
  define i4 :: int where "i4 = (if y mod 4 = 0 then 1 else 0)"
  define i100 :: int where "i100 = (if y mod 100 = 0 then 1 else 0)"
  define i400 :: int where "i400 = (if y mod 400 = 0 then 1 else 0)"
  define a b c where "a = (y - 1) div 4" and "b = (y - 1) div 100" and "c = (y - 1) div 400"
  have s: "y div 4 = a + i4" "y div 100 = b + i100" "y div 400 = c + i400"
    unfolding a_def b_def c_def i4_def i100_def i400_def
    by (rule div_step, simp)+
  have "days_before_year (y + 1) = 365 * y + y div 4 - y div 100 + y div 400"
    by (simp add: days_before_year_def)
  also have "\<dots> = 365 * y + (a + i4) - (b + i100) + (c + i400)"
    by (simp only: s)
  also have "\<dots> = (365 * (y - 1) + a - b + c) + (365 + i4 - i100 + i400)"
    by (simp add: algebra_simps)
  also have "365 * (y - 1) + a - b + c = days_before_year y"
    by (simp only: days_before_year_def a_def b_def c_def)
  finally have step: "days_before_year (y + 1) = days_before_year y + (365 + i4 - i100 + i400)" .
  have leap: "365 + i4 - i100 + i400 = (if is_leap y then 366 else 365)"
  proof (cases "y mod 4 = 0")
    case False
    have n100: "y mod 100 \<noteq> 0"
    proof
      assume "y mod 100 = 0"
      then have "y mod 4 = 0" by (rule mod_100_4)
      with False show False by simp
    qed
    have "y mod 400 \<noteq> 0"
    proof
      assume "y mod 400 = 0"
      then have "y mod 100 = 0" by (rule mod_400_100)
      with n100 show False by simp
    qed
    with False n100 show ?thesis by (simp add: i4_def i100_def i400_def is_leap_def)
  next
    case True
    note m4 = this
    show ?thesis
    proof (cases "y mod 100 = 0")
      case False
      have "y mod 400 \<noteq> 0"
      proof
        assume "y mod 400 = 0"
        then have "y mod 100 = 0" by (rule mod_400_100)
        with False show False by simp
      qed
      with m4 False show ?thesis by (simp add: i4_def i100_def i400_def is_leap_def)
    next
      case True
      with m4 show ?thesis by (simp add: i4_def i100_def i400_def is_leap_def)
    qed
  qed
  show ?thesis using step by (simp only: leap)
qed

lemma days_before_month_Suc:
  "1 \<le> m \<Longrightarrow> days_before_month y (m + 1) = days_before_month y m + days_in_month y m"
  by (simp add: days_before_month_def)

lemma days_before_month_1: "days_before_month y (Suc 0) = 0"
  by (simp add: days_before_month_def)

lemma upt_1_12: "[1..<12] = [1, 2, 3, 4, 5, 6, 7, 8, 9, 10, 11::nat]"
  by (simp add: upt_rec)

lemma days_before_month_12: "days_before_month y 12 = (if is_leap y then 335 else 334)"
  unfolding days_before_month_def upt_1_12 by (simp add: days_in_month_def)

lemma valid_next_day:
  assumes "valid_date d"
  shows "valid_date (next_day d)"
proof -
  have v: "1 \<le> month d" "month d \<le> 12" "1 \<le> day d" "day d \<le> days_in_month (year d) (month d)"
    using assms by (simp_all add: valid_date_def)
  show ?thesis
  proof (cases "day d < days_in_month (year d) (month d)")
    case True
    with v show ?thesis by (simp add: next_day_def valid_date_def)
  next
    case False
    note last_of_month = this
    show ?thesis
    proof (cases "month d < 12")
      case True
      with last_of_month days_in_month_bounds [of "year d" "month d + 1"] show ?thesis
        by (simp add: next_day_def valid_date_def)
    next
      case False
      with last_of_month days_in_month_bounds [of "year d + 1" 1] show ?thesis
        by (simp add: next_day_def valid_date_def)
    qed
  qed
qed

lemma valid_prev_day:
  assumes "valid_date d"
  shows "valid_date (prev_day d)"
proof -
  have v: "1 \<le> month d" "month d \<le> 12" "1 \<le> day d" "day d \<le> days_in_month (year d) (month d)"
    using assms by (simp_all add: valid_date_def)
  show ?thesis
  proof (cases "1 < day d")
    case True
    with v show ?thesis by (auto simp: prev_day_def valid_date_def)
  next
    case False
    note first_of_month = this
    show ?thesis
    proof (cases "1 < month d")
      case True
      with first_of_month v(2) days_in_month_bounds [of "year d" "month d - 1"] show ?thesis
        by (auto simp: prev_day_def valid_date_def)
    next
      case False
      with first_of_month show ?thesis
        by (simp add: prev_day_def valid_date_def days_in_month_12)
    qed
  qed
qed

lemma day_number_next_day:
  assumes "valid_date d"
  shows "day_number (next_day d) = day_number d + 1"
proof -
  have v: "1 \<le> month d" "month d \<le> 12" "1 \<le> day d" "day d \<le> days_in_month (year d) (month d)"
    using assms by (simp_all add: valid_date_def)
  show ?thesis
  proof (cases "day d < days_in_month (year d) (month d)")
    case True
    then show ?thesis by (simp add: next_day_def day_number_def)
  next
    case False
    with v(4) have eq: "day d = days_in_month (year d) (month d)" by simp
    show ?thesis
    proof (cases "month d < 12")
      case True
      with False days_before_month_Suc [OF v(1), of "year d"] eq show ?thesis
        by (simp add: next_day_def day_number_def)
    next
      case False
      with v(2) have m: "month d = 12" by simp
      with eq have "day d = 31" by (simp add: days_in_month_12)
      with m eq show ?thesis
        by (simp add: next_day_def day_number_def days_before_year_Suc
            days_before_month_1 days_before_month_12 days_in_month_12)
    qed
  qed
qed

lemma next_prev_day:
  assumes "valid_date d"
  shows "next_day (prev_day d) = d"
proof -
  have v: "1 \<le> month d" "month d \<le> 12" "1 \<le> day d" "day d \<le> days_in_month (year d) (month d)"
    using assms by (simp_all add: valid_date_def)
  show ?thesis
  proof (cases "1 < day d")
    case True
    with v(4) show ?thesis by (simp add: prev_day_def next_day_def)
  next
    case False
    with v(3) have d1: "day d = 1" by simp
    show ?thesis
    proof (cases "1 < month d")
      case True
      with d1 v(2) show ?thesis by (simp add: prev_day_def next_day_def)
    next
      case False
      with v(1) have "month d = 1" by simp
      with d1 show ?thesis by (simp add: prev_day_def next_day_def days_in_month_12)
    qed
  qed
qed

lemma day_number_prev_day:
  assumes "valid_date d"
  shows "day_number (prev_day d) = day_number d - 1"
proof -
  have "day_number (next_day (prev_day d)) = day_number (prev_day d) + 1"
    using valid_prev_day [OF assms] by (rule day_number_next_day)
  then have "day_number d = day_number (prev_day d) + 1"
    by (simp only: next_prev_day [OF assms])
  then show ?thesis by linarith
qed

section \<open>What the three command lines print\<close>

lemma sh_words_yesterday:
  \<open>sh_words None False ''date -v-1d +"%d %b %Y"'' = Some [''date'', ''-v-1d'', ''+%d %b %Y'']\<close>
  by simp

lemma sh_words_today:
  \<open>sh_words None False ''date +"%d %b %Y"'' = Some [''date'', ''+%d %b %Y'']\<close>
  by simp

lemma sh_words_tomorrow:
  \<open>sh_words None False ''date -v+1d +"%d %b %Y"'' = Some [''date'', ''-v+1d'', ''+%d %b %Y'']\<close>
  by simp

lemma strftime_format_date: "strftime ''%d %b %Y'' d = Some (format_date d)"
  by (simp add: conv_def format_date_def)

lemma vary_minus_1d: "vary ''-1d'' d = Some (prev_day d)"
  by (simp add: vary_def is_digit_def)

lemma vary_plus_1d: "vary ''+1d'' d = Some (next_day d)"
  by (simp add: vary_def is_digit_def)

lemma date_cmd_yesterday:
  "date_cmd now [''-v-1d'', ''+%d %b %Y''] = Some (format_date (prev_day now) @ [CHR 0x0A])"
  using vary_minus_1d [of now] strftime_format_date [of "prev_day now"] by simp

lemma date_cmd_today: "date_cmd now [''+%d %b %Y''] = Some (format_date now @ [CHR 0x0A])"
  using strftime_format_date [of now] by simp

lemma date_cmd_tomorrow:
  "date_cmd now [''-v+1d'', ''+%d %b %Y''] = Some (format_date (next_day now) @ [CHR 0x0A])"
  using vary_plus_1d [of now] strftime_format_date [of "next_day now"] by simp

lemma check_output_yesterday:
  \<open>check_output now ''date -v-1d +"%d %b %Y"'' = Some (format_date (prev_day now) @ [CHR 0x0A])\<close>
  unfolding check_output_def sh_words_yesterday using date_cmd_yesterday [of now] by simp

lemma check_output_today:
  \<open>check_output now ''date +"%d %b %Y"'' = Some (format_date now @ [CHR 0x0A])\<close>
  unfolding check_output_def sh_words_today using date_cmd_today [of now] by simp

lemma check_output_tomorrow:
  \<open>check_output now ''date -v+1d +"%d %b %Y"'' = Some (format_date (next_day now) @ [CHR 0x0A])\<close>
  unfolding check_output_def sh_words_tomorrow using date_cmd_tomorrow [of now] by simp

lemma choose_cmd_Some_iff:
  "(\<exists>btn cmd. choose_cmd option = Some (btn, cmd)) \<longleftrightarrow> option = 1 \<or> option = 2 \<or> option = 3"
  by (simp add: choose_cmd_def)

lemma choose_cmd_None_iff:
  "choose_cmd option = None \<longleftrightarrow> option \<noteq> 1 \<and> option \<noteq> 2 \<and> option \<noteq> 3"
  by (simp add: choose_cmd_def)

lemma check_output_choose_cmd:
  assumes "choose_cmd option = Some (btn, cmd)"
  shows "check_output now cmd = Some (format_date (target_date now option) @ [CHR 0x0A])"
proof -
  consider "option = 1" | "option = 2" | "option = 3"
    using assms by (auto simp: choose_cmd_def split: if_splits)
  then show ?thesis
  proof cases
    case 1
    with assms have "cmd = ''date -v-1d +\"%d %b %Y\"''" by (simp add: choose_cmd_def)
    with 1 show ?thesis using check_output_yesterday [of now] by (simp add: target_date_def)
  next
    case 2
    with assms have "cmd = ''date +\"%d %b %Y\"''" by (simp add: choose_cmd_def)
    with 2 show ?thesis using check_output_today [of now] by (simp add: target_date_def)
  next
    case 3
    with assms have "cmd = ''date -v+1d +\"%d %b %Y\"''" by (simp add: choose_cmd_def)
    with 3 show ?thesis using check_output_tomorrow [of now] by (simp add: target_date_def)
  qed
qed

lemma run_and_append_Some:
  assumes "check_output now cmd = Some (base @ [CHR 0x0A])"
  shows "run_and_append now cmd st =
    Returned (st\<lparr>self_output := Some (padded (leading_check st) (trailing_check st) base),
                 clipboard := clipboard st @ padded (leading_check st) (trailing_check st) base\<rparr>)"
  using assms by (simp add: run_and_append_def padded_def Let_def)

lemma copy_date_valid:
  assumes "choose_cmd option = Some (btn, cmd)"
  shows "copy_date now option st =
    Returned (st\<lparr>clipboard :=
                   padded (leading_check st) (trailing_check st) (format_date (target_date now option)),
                 focus := Some btn,
                 self_output :=
                   Some (padded (leading_check st) (trailing_check st)
                          (format_date (target_date now option)))\<rparr>)"
  using assms run_and_append_Some [OF check_output_choose_cmd [OF assms, of now]]
  by (simp add: copy_date_def)

lemma copy_date_invalid:
  assumes "choose_cmd option = None"
  shows "copy_date now option st =
    SystemExit 1 (st\<lparr>clipboard := [],
                     stderr := stderr st @ ''copy_date was called with an invalid arg''\<rparr>)"
  using assms by (simp add: copy_date_def)

section \<open>The characters of a formatted date\<close>

lemma is_digit_digit_char: "is_digit (digit_char n)"
proof -
  have "n mod 10 < length ''0123456789''" by simp
  then have "''0123456789'' ! (n mod 10) \<in> set ''0123456789''" by (rule nth_mem)
  then show ?thesis by (simp only: digit_char_def is_digit_def)
qed

lemma not_is_digit_newline: "\<not> is_digit (CHR 0x0A)"
  by (simp add: is_digit_def)

lemma not_is_digit_space: "\<not> is_digit (CHR '' '')"
  by (simp add: is_digit_def)

lemma digits_not_Nil: "digits n \<noteq> []"
  by (subst digits.simps) simp

lemma digits_all_digits: "list_all is_digit (digits n)"
proof (induction n rule: digits.induct)
  case (1 n)
  show ?case
  proof (cases "n < 10")
    case True
    then have "digits n = [digit_char n]" by (subst digits.simps) simp
    then show ?thesis by (simp add: is_digit_digit_char)
  next
    case False
    then have "digits n = digits (n div 10) @ [digit_char (n mod 10)]"
      by (subst digits.simps) simp
    then show ?thesis
      using "1.IH" [OF False] by (simp add: is_digit_digit_char)
  qed
qed

lemma digits_two:
  assumes "10 \<le> n" "n < 100"
  shows "digits n = [digit_char (n div 10), digit_char (n mod 10)]"
proof -
  from assms have "n div 10 < 10" by simp
  then have "digits (n div 10) = [digit_char (n div 10)]" by (subst digits.simps) simp
  moreover from assms have "digits n = digits (n div 10) @ [digit_char (n mod 10)]"
    by (subst digits.simps) simp
  ultimately show ?thesis by simp
qed

lemma conv_02d_two:
  assumes "n < 100"
  shows "conv_02d n = [digit_char (n div 10), digit_char (n mod 10)]"
proof (cases "n < 10")
  case True
  then have "digits n = [digit_char n]" by (subst digits.simps) simp
  with True show ?thesis by (simp add: conv_02d_def digit_char_def)
next
  case False
  with assms digits_two [of n] show ?thesis by (simp add: conv_02d_def)
qed

lemma conv_02d_not_Nil: "conv_02d n \<noteq> []"
  by (simp add: conv_02d_def digits_not_Nil)

lemma is_digit_0: "is_digit (CHR ''0'')"
  by (simp add: is_digit_def)

lemma conv_02d_all_digits: "list_all is_digit (conv_02d n)"
  by (simp add: conv_02d_def digits_all_digits is_digit_0)

lemma conv_year_not_Nil: "conv_year y \<noteq> []"
  by (simp add: conv_year_def conv_02d_not_Nil)

lemma conv_year_chars: "list_all (\<lambda>c. is_digit c \<or> c = CHR ''-'') (conv_year y)"
proof -
  have weaken: "list_all is_digit s \<Longrightarrow> list_all (\<lambda>c. is_digit c \<or> c = CHR ''-'') s" for s
    by (induction s) simp_all
  show ?thesis
    by (simp add: conv_year_def weaken conv_02d_all_digits digits_all_digits)
qed

lemma last_list_all: "s \<noteq> [] \<Longrightarrow> list_all P s \<Longrightarrow> P (last s)"
  by (induction s) (auto split: if_splits)

lemma hd_list_all: "s \<noteq> [] \<Longrightarrow> list_all P s \<Longrightarrow> P (hd s)"
  by (cases s) simp_all

lemma last_conv_year: "is_digit (last (conv_year y))"
proof -
  have "last (conv_year y) = last (conv_02d (nat y mod 100))
      \<or> last (conv_year y) = last (conv_02d (nat (- y) mod 100))"
    by (simp add: conv_year_def conv_02d_not_Nil)
  moreover have "is_digit (last (conv_02d n))" for n
    using conv_02d_not_Nil conv_02d_all_digits by (rule last_list_all)
  ultimately show ?thesis by auto
qed

lemma newline_not_in_month_abbr: "CHR 0x0A \<notin> set (month_abbr m)"
proof (cases "1 \<le> m \<and> m \<le> 12")
  case True
  have len: "length [''Jan'', ''Feb'', ''Mar'', ''Apr'', ''May'', ''Jun'',
            ''Jul'', ''Aug'', ''Sep'', ''Oct'', ''Nov'', ''Dec''] = 12" by simp
  from True have "m - 1 < 12" by arith
  then have "m - 1 < length [''Jan'', ''Feb'', ''Mar'', ''Apr'', ''May'', ''Jun'',
            ''Jul'', ''Aug'', ''Sep'', ''Oct'', ''Nov'', ''Dec'']" by (simp only: len)
  then have mem: "[''Jan'', ''Feb'', ''Mar'', ''Apr'', ''May'', ''Jun'',
            ''Jul'', ''Aug'', ''Sep'', ''Oct'', ''Nov'', ''Dec''] ! (m - 1)
       \<in> set [''Jan'', ''Feb'', ''Mar'', ''Apr'', ''May'', ''Jun'',
            ''Jul'', ''Aug'', ''Sep'', ''Oct'', ''Nov'', ''Dec'']" by (rule nth_mem)
  have eq: "month_abbr m = [''Jan'', ''Feb'', ''Mar'', ''Apr'', ''May'', ''Jun'',
            ''Jul'', ''Aug'', ''Sep'', ''Oct'', ''Nov'', ''Dec''] ! (m - 1)"
    unfolding month_abbr_def using True by (rule if_P)
  have all: "\<forall>s \<in> set [''Jan'', ''Feb'', ''Mar'', ''Apr'', ''May'', ''Jun'',
                  ''Jul'', ''Aug'', ''Sep'', ''Oct'', ''Nov'', ''Dec'']. CHR 0x0A \<notin> set s"
    by simp
  show ?thesis unfolding eq by (rule bspec [OF all mem])
next
  case False
  have "month_abbr m = ''?''" unfolding month_abbr_def using False by (rule if_not_P)
  then show ?thesis by simp
qed

lemma list_all_not_mem: "list_all P s \<Longrightarrow> \<not> P c \<Longrightarrow> c \<notin> set s"
  by (auto simp: list_all_iff)

lemma newline_not_in_format_date: "CHR 0x0A \<notin> set (format_date d)"
proof -
  have "CHR 0x0A \<notin> set (conv_02d (day d))"
    using conv_02d_all_digits not_is_digit_newline by (rule list_all_not_mem)
  moreover have "CHR 0x0A \<notin> set (conv_year (year d))"
    using conv_year_chars by (rule list_all_not_mem) (simp add: not_is_digit_newline)
  ultimately show ?thesis
    using newline_not_in_month_abbr [of "month d"] by (simp add: format_date_def)
qed

lemma format_date_not_Nil: "format_date d \<noteq> []"
  by (simp add: format_date_def)

lemma last_format_date: "is_digit (last (format_date d))"
proof -
  have "last (format_date d) = last (conv_year (year d))"
    using conv_year_not_Nil [of "year d"] by (simp add: format_date_def)
  then show ?thesis using last_conv_year [of "year d"] by simp
qed

lemma hd_format_date: "is_digit (hd (format_date d))"
proof -
  have "hd (format_date d) = hd (conv_02d (day d))"
    using conv_02d_not_Nil [of "day d"] by (simp add: format_date_def)
  moreover have "is_digit (hd (conv_02d (day d)))"
    using conv_02d_not_Nil conv_02d_all_digits by (rule hd_list_all)
  ultimately show ?thesis by simp
qed

lemma format_date_day:
  assumes "day d < 100"
  shows "format_date d = [digit_char (day d div 10), digit_char (day d mod 10), CHR '' '']
           @ month_abbr (month d) @ '' '' @ conv_year (year d)"
  using conv_02d_two [OF assms] by (simp add: format_date_def)

section \<open>Valid options\<close>

lemma copy_date_Returned:
  assumes "option \<in> {1, 2, 3}"
  shows "\<exists>btn. copy_date now option st =
    Returned (st\<lparr>clipboard :=
                   padded (leading_check st) (trailing_check st) (format_date (target_date now option)),
                 focus := Some btn,
                 self_output :=
                   Some (padded (leading_check st) (trailing_check st)
                          (format_date (target_date now option)))\<rparr>)"
proof -
  from assms have "option = 1 \<or> option = 2 \<or> option = 3" by simp
  then obtain btn cmd where "choose_cmd option = Some (btn, cmd)"
    using choose_cmd_Some_iff [of option] by blast
  then have "copy_date now option st =
    Returned (st\<lparr>clipboard :=
                   padded (leading_check st) (trailing_check st) (format_date (target_date now option)),
                 focus := Some btn,
                 self_output :=
                   Some (padded (leading_check st) (trailing_check st)
                          (format_date (target_date now option)))\<rparr>)"
    by (rule copy_date_valid)
  then show ?thesis by blast
qed

lemma clipboard_copy_date:
  assumes "option \<in> {1, 2, 3}"
  shows "clipboard (final_state (copy_date now option st)) =
           padded (leading_check st) (trailing_check st) (format_date (target_date now option))"
proof -
  from copy_date_Returned [OF assms, of now st] obtain btn where
    "copy_date now option st =
    Returned (st\<lparr>clipboard :=
                   padded (leading_check st) (trailing_check st) (format_date (target_date now option)),
                 focus := Some btn,
                 self_output :=
                   Some (padded (leading_check st) (trailing_check st)
                          (format_date (target_date now option)))\<rparr>)" ..
  then show ?thesis by simp
qed

lemma valid_target_date:
  assumes "valid_date now"
  shows "valid_date (target_date now option)"
  using assms valid_next_day [OF assms] valid_prev_day [OF assms]
  by (simp add: target_date_def)

lemma day_number_target_date:
  assumes "valid_date now" and "option \<in> {1, 2, 3}"
  shows "day_number (target_date now option) = day_number now + (option - 2)"
  using assms(2) day_number_next_day [OF assms(1)] day_number_prev_day [OF assms(1)]
  by (auto simp: target_date_def)

lemma valid_date_day_less: "valid_date d \<Longrightarrow> day d < 100"
  using days_in_month_bounds [of "year d" "month d"] by (simp add: valid_date_def)

lemma length_padded:
  "length (padded l t s) = length s + (if l then 1 else 0) + (if t then 1 else 0)"
  by (simp add: padded_def)

lemma padded_not_Nil: "s \<noteq> [] \<Longrightarrow> padded l t s \<noteq> []"
  by (simp add: padded_def)

lemma last_padded: "s \<noteq> [] \<Longrightarrow> last (padded l t s) = (if t then CHR '' '' else last s)"
  by (simp add: padded_def)

lemma set_padded: "set (padded l t s) \<subseteq> insert (CHR '' '') (set s)"
  by (auto simp: padded_def)

lemma last_format_date_not_space: "last (format_date d) \<noteq> CHR '' ''"
  using last_format_date [of d] not_is_digit_space by auto

lemma hd_format_date_not_space: "hd (format_date d) \<noteq> CHR '' ''"
  using hd_format_date [of d] not_is_digit_space by auto

lemma last_format_date_not_newline: "last (format_date d) \<noteq> CHR 0x0A"
  using last_format_date [of d] not_is_digit_newline by auto

section \<open>Invalid options\<close>

text \<open>
  C1, as stated: an option outside 1, 2, 3 leaves the clipboard as it was. It does not:
  \<^verbatim>\<open>clipboard_clear\<close> (line 102) runs before the option is examined, so the call with option 4
  on a clipboard holding \<^verbatim>\<open>abc\<close> ends with an empty clipboard.
\<close>

theorem invalid_option_clipboard_counterexample:
  "clipboard (final_state (copy_date \<lparr>year = 2016, month = 12, day = 23\<rparr> 4 (init_app ''abc'')))
     \<noteq> clipboard (init_app ''abc'')"
  by (simp add: copy_date_def choose_cmd_def init_app_def)

text \<open>
  C1, amended: for every option outside 1, 2, 3 the clipboard is cleared and nothing is written
  to it (it ends empty, whatever it held), every other field of the state but standard error
  is as before, and the invalid argument is reported: the message is written to standard
  error and the call ends in \<^verbatim>\<open>SystemExit\<close> with status 1.
\<close>

theorem invalid_option_clears_and_reports:
  "option \<noteq> 1 \<Longrightarrow> option \<noteq> 2 \<Longrightarrow> option \<noteq> 3 \<Longrightarrow>
   copy_date now option st =
     SystemExit 1 (st\<lparr>clipboard := [],
                      stderr := stderr st @ ''copy_date was called with an invalid arg''\<rparr>)"
  by (simp add: copy_date_invalid choose_cmd_None_iff)

theorem invalid_option_clears_and_reports_witness:
  "(4::int) \<noteq> 1 \<and> (4::int) \<noteq> 2 \<and> (4::int) \<noteq> 3 \<and>
   copy_date \<lparr>year = 2016, month = 12, day = 23\<rparr> 4 (init_app ''abc'') =
     SystemExit 1 \<lparr>clipboard = [], focus = None, self_output = None,
                   leading_check = False, trailing_check = False,
                   stderr = ''copy_date was called with an invalid arg''\<rparr>"
  using invalid_option_clears_and_reports
    [of 4 "\<lparr>year = 2016, month = 12, day = 23\<rparr>" "init_app ''abc''"]
  by (simp add: init_app_def)

text \<open>
  C7: when \<^verbatim>\<open>copy_date\<close> is called with an invalid option, the error message is appended to
  the error channel (standard error) and the process terminates: the call does not return
  but raises \<^verbatim>\<open>SystemExit\<close> with exit status 1.
\<close>

theorem invalid_option_reports_and_exits:
  "option \<noteq> 1 \<Longrightarrow> option \<noteq> 2 \<Longrightarrow> option \<noteq> 3 \<Longrightarrow>
   \<exists>st'. copy_date now option st = SystemExit 1 st'
        \<and> stderr st' = stderr st @ ''copy_date was called with an invalid arg''"
  by (simp add: copy_date_invalid choose_cmd_None_iff)

theorem invalid_option_reports_and_exits_witness:
  "(0::int) \<noteq> 1 \<and> (0::int) \<noteq> 2 \<and> (0::int) \<noteq> 3 \<and>
   (\<exists>st'. copy_date \<lparr>year = 2016, month = 12, day = 23\<rparr> 0 (init_app []) = SystemExit 1 st'
        \<and> stderr st' = stderr (init_app []) @ ''copy_date was called with an invalid arg'')"
  using invalid_option_reports_and_exits
    [of 0 "\<lparr>year = 2016, month = 12, day = 23\<rparr>" "init_app []"]
  by simp

section \<open>The clipboard after a successful call\<close>

text \<open>
  C5: every call with a valid option returns, and the clipboard then holds exactly the one
  formatted (and padded) string, the same string that was stored in \<^verbatim>\<open>self.output\<close> and
  appended: \<^verbatim>\<open>clipboard_clear\<close> ran first, so nothing of the previous content \<open>old\<close> is left,
  whatever it was.
\<close>

theorem copy_date_replaces_clipboard:
  "option \<in> {1, 2, 3} \<Longrightarrow>
   \<exists>st'. copy_date now option st = Returned st'
     \<and> clipboard st' =
         padded (leading_check st) (trailing_check st) (format_date (target_date now option))
     \<and> self_output st' = Some (clipboard st')
     \<and> clipboard (final_state (copy_date now option (st\<lparr>clipboard := old\<rparr>))) = clipboard st'"
proof -
  assume opt: "option \<in> {1, 2, 3}"
  from copy_date_Returned [OF opt, of now st] obtain btn where
    "copy_date now option st =
    Returned (st\<lparr>clipboard :=
                   padded (leading_check st) (trailing_check st) (format_date (target_date now option)),
                 focus := Some btn,
                 self_output :=
                   Some (padded (leading_check st) (trailing_check st)
                          (format_date (target_date now option)))\<rparr>)" ..
  then show ?thesis
    using clipboard_copy_date [OF opt, of now "st\<lparr>clipboard := old\<rparr>"] by simp
qed

theorem copy_date_replaces_clipboard_witness:
  "(2::int) \<in> {1, 2, 3} \<and>
   (\<exists>st'. copy_date \<lparr>year = 2016, month = 12, day = 23\<rparr> 2 (init_app ''abc'') = Returned st'
     \<and> clipboard st' = ''23 Dec 2016''
     \<and> self_output st' = Some (clipboard st')
     \<and> clipboard (final_state (copy_date \<lparr>year = 2016, month = 12, day = 23\<rparr> 2
           ((init_app ''abc'')\<lparr>clipboard := ''xyz''\<rparr>))) = clipboard st')"
proof -
  have "padded (leading_check (init_app ''abc'')) (trailing_check (init_app ''abc''))
          (format_date (target_date \<lparr>year = 2016, month = 12, day = 23\<rparr> 2)) = ''23 Dec 2016''"
    by code_simp
  then show ?thesis
    using copy_date_replaces_clipboard
      [of 2 "\<lparr>year = 2016, month = 12, day = 23\<rparr>" "init_app ''abc''" "''xyz''"]
    by simp
qed

text \<open>
  C6: for a valid option, with the clock on the same date \<open>now\<close> and the spacing flags left
  alone, a second call made right after the first one ends in the very state the first call
  ended in; in particular the clipboard content is identical.
\<close>

theorem copy_date_idempotent:
  "option \<in> {1, 2, 3} \<Longrightarrow>
   \<exists>st1 st2. copy_date now option st = Returned st1
     \<and> copy_date now option st1 = Returned st2
     \<and> clipboard st2 = clipboard st1 \<and> st2 = st1"
proof -
  assume opt: "option \<in> {1, 2, 3}"
  then have "option = 1 \<or> option = 2 \<or> option = 3" by simp
  then obtain btn cmd where c: "choose_cmd option = Some (btn, cmd)"
    using choose_cmd_Some_iff [of option] by blast
  show ?thesis
    by (simp add: copy_date_valid [OF c])
qed

theorem copy_date_idempotent_witness:
  "(2::int) \<in> {1, 2, 3} \<and>
   (\<exists>st1 st2. copy_date \<lparr>year = 2016, month = 12, day = 23\<rparr> 2 (init_app ''abc'') = Returned st1
     \<and> copy_date \<lparr>year = 2016, month = 12, day = 23\<rparr> 2 st1 = Returned st2
     \<and> clipboard st2 = clipboard st1 \<and> st2 = st1)"
  using copy_date_idempotent [of 2 "\<lparr>year = 2016, month = 12, day = 23\<rparr>" "init_app ''abc''"]
  by simp

section \<open>Spacing\<close>

text \<open>
  C4: the formatted date neither begins nor ends with a blank, and the flags compose as
  follows. Leading on and trailing off: one blank in front, length plus one, no blank at the
  end. Both on: one blank in front and one at the end, length plus two. Both off: the
  formatted date unchanged.
\<close>

theorem spacing_flags_compose:
  "option \<in> {1, 2, 3} \<Longrightarrow>
   hd (format_date (target_date now option)) \<noteq> CHR '' '' \<and>
   last (format_date (target_date now option)) \<noteq> CHR '' '' \<and>
   (leading_check st \<and> \<not> trailing_check st \<longrightarrow>
      clipboard (final_state (copy_date now option st)) =
        CHR '' '' # format_date (target_date now option)
      \<and> length (clipboard (final_state (copy_date now option st))) =
        length (format_date (target_date now option)) + 1
      \<and> last (clipboard (final_state (copy_date now option st))) \<noteq> CHR '' '') \<and>
   (leading_check st \<and> trailing_check st \<longrightarrow>
      clipboard (final_state (copy_date now option st)) =
        CHR '' '' # format_date (target_date now option) @ [CHR '' '']
      \<and> length (clipboard (final_state (copy_date now option st))) =
        length (format_date (target_date now option)) + 2) \<and>
   (\<not> leading_check st \<and> \<not> trailing_check st \<longrightarrow>
      clipboard (final_state (copy_date now option st)) = format_date (target_date now option))"
proof -
  assume opt: "option \<in> {1, 2, 3}"
  show ?thesis
    using hd_format_date_not_space [of "target_date now option"]
      last_format_date_not_space [of "target_date now option"]
      format_date_not_Nil [of "target_date now option"]
    by (simp add: clipboard_copy_date [OF opt] padded_def)
qed

theorem spacing_flags_compose_witness:
  "(2::int) \<in> {1, 2, 3} \<and>
   format_date (target_date \<lparr>year = 2016, month = 12, day = 23\<rparr> 2) = ''23 Dec 2016'' \<and>
   clipboard (final_state (copy_date \<lparr>year = 2016, month = 12, day = 23\<rparr> 2
      (toggle_leading (init_app [])))) = '' 23 Dec 2016'' \<and>
   length (clipboard (final_state (copy_date \<lparr>year = 2016, month = 12, day = 23\<rparr> 2
      (toggle_leading (init_app []))))) = length ''23 Dec 2016'' + 1"
proof -
  have f: "format_date (target_date \<lparr>year = 2016, month = 12, day = 23\<rparr> 2) = ''23 Dec 2016''"
    by code_simp
  have l: "leading_check (toggle_leading (init_app []))"
    and t: "\<not> trailing_check (toggle_leading (init_app []))"
    by (simp_all add: toggle_leading_def init_app_def)
  show ?thesis
    using spacing_flags_compose
      [of 2 "\<lparr>year = 2016, month = 12, day = 23\<rparr>" "toggle_leading (init_app [])"] f l t
    by simp
qed

text \<open>
  C8: both spacing flags are false after start-up, and \<^verbatim>\<open>copy_date\<close> reads them at each call:
  when a flag is toggled between two calls with the same valid option on the same date, the
  second call pads by the new value of the flag, so the clipboard differs from the one of
  the first call.
\<close>

theorem spacing_flags_default_and_read_at_call:
  "\<not> leading_check (init_app clip) \<and> \<not> trailing_check (init_app clip) \<and>
   (option \<in> {1, 2, 3} \<longrightarrow>
     (\<exists>st1 st2. copy_date now option st = Returned st1
        \<and> copy_date now option (toggle_leading st1) = Returned st2
        \<and> clipboard st1 = padded (leading_check st) (trailing_check st)
                             (format_date (target_date now option))
        \<and> clipboard st2 = padded (\<not> leading_check st) (trailing_check st)
                             (format_date (target_date now option))
        \<and> clipboard st2 \<noteq> clipboard st1) \<and>
     (\<exists>st1 st2. copy_date now option st = Returned st1
        \<and> copy_date now option (toggle_trailing st1) = Returned st2
        \<and> clipboard st1 = padded (leading_check st) (trailing_check st)
                             (format_date (target_date now option))
        \<and> clipboard st2 = padded (leading_check st) (\<not> trailing_check st)
                             (format_date (target_date now option))
        \<and> clipboard st2 \<noteq> clipboard st1))"
proof -
  have d: "\<not> leading_check (init_app clip) \<and> \<not> trailing_check (init_app clip)"
    by (simp add: init_app_def)
  have neq_l: "padded (\<not> l) t s \<noteq> padded l t s" for l t s
  proof
    assume "padded (\<not> l) t s = padded l t s"
    then have "length (padded (\<not> l) t s) = length (padded l t s)" by simp
    then show False by (simp add: length_padded split: if_splits)
  qed
  have neq_t: "padded l (\<not> t) s \<noteq> padded l t s" for l t s
  proof
    assume "padded l (\<not> t) s = padded l t s"
    then have "length (padded l (\<not> t) s) = length (padded l t s)" by simp
    then show False by (simp add: length_padded split: if_splits)
  qed
  have "option \<in> {1, 2, 3} \<longrightarrow>
     (\<exists>st1 st2. copy_date now option st = Returned st1
        \<and> copy_date now option (toggle_leading st1) = Returned st2
        \<and> clipboard st1 = padded (leading_check st) (trailing_check st)
                             (format_date (target_date now option))
        \<and> clipboard st2 = padded (\<not> leading_check st) (trailing_check st)
                             (format_date (target_date now option))
        \<and> clipboard st2 \<noteq> clipboard st1) \<and>
     (\<exists>st1 st2. copy_date now option st = Returned st1
        \<and> copy_date now option (toggle_trailing st1) = Returned st2
        \<and> clipboard st1 = padded (leading_check st) (trailing_check st)
                             (format_date (target_date now option))
        \<and> clipboard st2 = padded (leading_check st) (\<not> trailing_check st)
                             (format_date (target_date now option))
        \<and> clipboard st2 \<noteq> clipboard st1)"
  proof
    assume opt: "option \<in> {1, 2, 3}"
    then have "option = 1 \<or> option = 2 \<or> option = 3" by simp
    then obtain btn cmd where c: "choose_cmd option = Some (btn, cmd)"
      using choose_cmd_Some_iff [of option] by blast
    show "(\<exists>st1 st2. copy_date now option st = Returned st1
        \<and> copy_date now option (toggle_leading st1) = Returned st2
        \<and> clipboard st1 = padded (leading_check st) (trailing_check st)
                             (format_date (target_date now option))
        \<and> clipboard st2 = padded (\<not> leading_check st) (trailing_check st)
                             (format_date (target_date now option))
        \<and> clipboard st2 \<noteq> clipboard st1) \<and>
     (\<exists>st1 st2. copy_date now option st = Returned st1
        \<and> copy_date now option (toggle_trailing st1) = Returned st2
        \<and> clipboard st1 = padded (leading_check st) (trailing_check st)
                             (format_date (target_date now option))
        \<and> clipboard st2 = padded (leading_check st) (\<not> trailing_check st)
                             (format_date (target_date now option))
        \<and> clipboard st2 \<noteq> clipboard st1)"
      by (simp add: copy_date_valid [OF c] toggle_leading_def toggle_trailing_def neq_l neq_t)
  qed
  with d show ?thesis by simp
qed

theorem spacing_flags_default_and_read_at_call_witness:
  "(2::int) \<in> {1, 2, 3} \<and>
   (\<exists>st1 st2. copy_date \<lparr>year = 2016, month = 12, day = 23\<rparr> 2 (init_app []) = Returned st1
        \<and> copy_date \<lparr>year = 2016, month = 12, day = 23\<rparr> 2 (toggle_leading st1) = Returned st2
        \<and> clipboard st1 = ''23 Dec 2016''
        \<and> clipboard st2 = '' 23 Dec 2016'')"
proof -
  have f: "format_date (target_date \<lparr>year = 2016, month = 12, day = 23\<rparr> 2) = ''23 Dec 2016''"
    by code_simp
  show ?thesis
    using spacing_flags_default_and_read_at_call
      [of "[]" 2 "\<lparr>year = 2016, month = 12, day = 23\<rparr>" "init_app []"] f
    by (simp add: init_app_def padded_def) blast
qed

section \<open>The final newline\<close>

text \<open>
  C10: for every valid option the command runs and its decoded output \<open>raw\<close> ends with the one
  newline that \<^verbatim>\<open>date\<close> prints and has no other; \<^verbatim>\<open>copy_date\<close> drops exactly that last character
  before it pads, so the string on the clipboard is not empty, does not end with a newline
  and holds none.
\<close>

theorem copy_date_strips_newline:
  "option \<in> {1, 2, 3} \<Longrightarrow>
   \<exists>btn cmd raw st'. choose_cmd option = Some (btn, cmd)
     \<and> check_output now cmd = Some raw
     \<and> raw = butlast raw @ [CHR 0x0A]
     \<and> CHR 0x0A \<notin> set (butlast raw)
     \<and> copy_date now option st = Returned st'
     \<and> clipboard st' = padded (leading_check st) (trailing_check st) (butlast raw)
     \<and> clipboard st' \<noteq> []
     \<and> last (clipboard st') \<noteq> CHR 0x0A
     \<and> CHR 0x0A \<notin> set (clipboard st')"
proof -
  assume opt: "option \<in> {1, 2, 3}"
  then have "option = 1 \<or> option = 2 \<or> option = 3" by simp
  then obtain btn cmd where c: "choose_cmd option = Some (btn, cmd)"
    using choose_cmd_Some_iff [of option] by blast
  let ?base = "format_date (target_date now option)"
  let ?clip = "padded (leading_check st) (trailing_check st) ?base"
  have raw: "check_output now cmd = Some (?base @ [CHR 0x0A])"
    using c by (rule check_output_choose_cmd)
  have nl: "CHR 0x0A \<notin> set ?base" by (rule newline_not_in_format_date)
  have "set ?clip \<subseteq> insert (CHR '' '') (set ?base)" by (rule set_padded)
  with nl have nl': "CHR 0x0A \<notin> set ?clip" by auto
  have ne: "?clip \<noteq> []" using format_date_not_Nil by (rule padded_not_Nil)
  then have "last ?clip \<in> set ?clip" by (rule last_in_set)
  with nl' have last: "last ?clip \<noteq> CHR 0x0A" by auto
  show ?thesis
    using c raw nl nl' ne last by (simp add: copy_date_valid [OF c])
qed

theorem copy_date_strips_newline_witness:
  "(3::int) \<in> {1, 2, 3} \<and>
   (\<exists>btn cmd raw st'. choose_cmd 3 = Some (btn, cmd)
     \<and> check_output \<lparr>year = 2016, month = 12, day = 23\<rparr> cmd = Some raw
     \<and> raw = butlast raw @ [CHR 0x0A]
     \<and> CHR 0x0A \<notin> set (butlast raw)
     \<and> copy_date \<lparr>year = 2016, month = 12, day = 23\<rparr> 3 (init_app ''abc'') = Returned st'
     \<and> clipboard st' = padded False False (butlast raw)
     \<and> clipboard st' \<noteq> []
     \<and> last (clipboard st') \<noteq> CHR 0x0A
     \<and> CHR 0x0A \<notin> set (clipboard st'))"
proof -
  have "leading_check (init_app ''abc'') = False" "trailing_check (init_app ''abc'') = False"
    by (simp_all add: init_app_def)
  then show ?thesis
    using copy_date_strips_newline
      [of 3 "\<lparr>year = 2016, month = 12, day = 23\<rparr>" "init_app ''abc''"]
    by simp
qed

section \<open>What a call changes besides the clipboard\<close>

text \<open>
  C9, as stated: a call changes the clipboard and nothing else. It changes more: the call
  with option 2 moves the keyboard focus to the "Today" button (line 108) and stores the
  string in \<^verbatim>\<open>self.output\<close> (lines 117 to 126), and the call with option 4 writes to standard
  error (line 114).
\<close>

theorem copy_date_touches_more_than_clipboard_counterexample:
  "focus (final_state (copy_date \<lparr>year = 2016, month = 12, day = 23\<rparr> 2 (init_app []))) \<noteq>
     focus (init_app []) \<and>
   self_output (final_state (copy_date \<lparr>year = 2016, month = 12, day = 23\<rparr> 2 (init_app []))) \<noteq>
     self_output (init_app []) \<and>
   stderr (final_state (copy_date \<lparr>year = 2016, month = 12, day = 23\<rparr> 4 (init_app []))) \<noteq>
     stderr (init_app [])"
  by code_simp

text \<open>
  C9, amended: no call changes the two spacing flags, and the clipboard is not all a call
  changes. A call with a valid option returns, having set the keyboard focus to the button
  of that option (1 "Yesterday", 2 "Today", 3 "Tomorrow") and stored the copied string in
  \<^verbatim>\<open>self.output\<close>; standard error and the flags are as before. A call with any other option
  does not return: it appends its message to standard error and terminates the process
  (\<^verbatim>\<open>SystemExit\<close> with status 1), with the clipboard cleared and the focus, \<^verbatim>\<open>self.output\<close>
  and the flags as before.
\<close>

theorem copy_date_frame:
  "(option = 1 \<longrightarrow>
      copy_date now option st =
        Returned (st\<lparr>clipboard := padded (leading_check st) (trailing_check st)
                                     (format_date (target_date now option)),
                     focus := Some yesterday_btn,
                     self_output := Some (padded (leading_check st) (trailing_check st)
                                           (format_date (target_date now option)))\<rparr>)) \<and>
   (option = 2 \<longrightarrow>
      copy_date now option st =
        Returned (st\<lparr>clipboard := padded (leading_check st) (trailing_check st)
                                     (format_date (target_date now option)),
                     focus := Some today_btn,
                     self_output := Some (padded (leading_check st) (trailing_check st)
                                           (format_date (target_date now option)))\<rparr>)) \<and>
   (option = 3 \<longrightarrow>
      copy_date now option st =
        Returned (st\<lparr>clipboard := padded (leading_check st) (trailing_check st)
                                     (format_date (target_date now option)),
                     focus := Some tomorrow_btn,
                     self_output := Some (padded (leading_check st) (trailing_check st)
                                           (format_date (target_date now option)))\<rparr>)) \<and>
   (option \<noteq> 1 \<and> option \<noteq> 2 \<and> option \<noteq> 3 \<longrightarrow>
      copy_date now option st =
        SystemExit 1 (st\<lparr>clipboard := [],
                         stderr := stderr st @ ''copy_date was called with an invalid arg''\<rparr>)) \<and>
   leading_check (final_state (copy_date now option st)) = leading_check st \<and>
   trailing_check (final_state (copy_date now option st)) = trailing_check st \<and>
   (option \<in> {1, 2, 3} \<longrightarrow>
      stderr (final_state (copy_date now option st)) = stderr st
      \<and> self_output (final_state (copy_date now option st)) =
          Some (clipboard (final_state (copy_date now option st)))) \<and>
   (option \<notin> {1, 2, 3} \<longrightarrow>
      focus (final_state (copy_date now option st)) = focus st
      \<and> self_output (final_state (copy_date now option st)) = self_output st
      \<and> stderr (final_state (copy_date now option st)) =
          stderr st @ ''copy_date was called with an invalid arg'')"
proof -
  consider "option = 1" | "option = 2" | "option = 3"
    | "option \<noteq> 1 \<and> option \<noteq> 2 \<and> option \<noteq> 3" by blast
  then show ?thesis
  proof cases
    case 1
    then have c: "choose_cmd option = Some (yesterday_btn, ''date -v-1d +\"%d %b %Y\"'')"
      by (simp add: choose_cmd_def)
    show ?thesis using 1 copy_date_valid [OF c, of now st] by simp
  next
    case 2
    then have c: "choose_cmd option = Some (today_btn, ''date +\"%d %b %Y\"'')"
      by (simp add: choose_cmd_def)
    show ?thesis using 2 copy_date_valid [OF c, of now st] by simp
  next
    case 3
    then have c: "choose_cmd option = Some (tomorrow_btn, ''date -v+1d +\"%d %b %Y\"'')"
      by (simp add: choose_cmd_def)
    show ?thesis using 3 copy_date_valid [OF c, of now st] by simp
  next
    case 4
    then have c: "choose_cmd option = None" by (simp add: choose_cmd_None_iff)
    show ?thesis using 4 copy_date_invalid [OF c, of now st] by simp
  qed
qed

theorem copy_date_frame_witness:
  "(2::int) \<in> {1, 2, 3} \<and> (4::int) \<notin> {1, 2, 3} \<and>
   copy_date \<lparr>year = 2016, month = 12, day = 23\<rparr> 1 (init_app ''abc'') =
     Returned \<lparr>clipboard = ''22 Dec 2016'', focus = Some yesterday_btn,
               self_output = Some ''22 Dec 2016'',
               leading_check = False, trailing_check = False, stderr = []\<rparr> \<and>
   copy_date \<lparr>year = 2016, month = 12, day = 23\<rparr> 2 (init_app ''abc'') =
     Returned \<lparr>clipboard = ''23 Dec 2016'', focus = Some today_btn,
               self_output = Some ''23 Dec 2016'',
               leading_check = False, trailing_check = False, stderr = []\<rparr> \<and>
   copy_date \<lparr>year = 2016, month = 12, day = 23\<rparr> 3 (init_app ''abc'') =
     Returned \<lparr>clipboard = ''24 Dec 2016'', focus = Some tomorrow_btn,
               self_output = Some ''24 Dec 2016'',
               leading_check = False, trailing_check = False, stderr = []\<rparr> \<and>
   copy_date \<lparr>year = 2016, month = 12, day = 23\<rparr> 4 (init_app ''abc'') =
     SystemExit 1 \<lparr>clipboard = [], focus = None, self_output = None,
                   leading_check = False, trailing_check = False,
                   stderr = ''copy_date was called with an invalid arg''\<rparr>"
proof -
  have f: "format_date (target_date \<lparr>year = 2016, month = 12, day = 23\<rparr> 1) = ''22 Dec 2016''"
    "format_date (target_date \<lparr>year = 2016, month = 12, day = 23\<rparr> 2) = ''23 Dec 2016''"
    "format_date (target_date \<lparr>year = 2016, month = 12, day = 23\<rparr> 3) = ''24 Dec 2016''"
    by code_simp+
  show ?thesis
    using copy_date_frame [of 1 "\<lparr>year = 2016, month = 12, day = 23\<rparr>" "init_app ''abc''"]
      copy_date_frame [of 2 "\<lparr>year = 2016, month = 12, day = 23\<rparr>" "init_app ''abc''"]
      copy_date_frame [of 3 "\<lparr>year = 2016, month = 12, day = 23\<rparr>" "init_app ''abc''"]
      copy_date_frame [of 4 "\<lparr>year = 2016, month = 12, day = 23\<rparr>" "init_app ''abc''"] f
    by (simp add: init_app_def padded_def)
qed

section \<open>The day of the month and the date arithmetic\<close>

text \<open>
  C2, as stated: the day is printed without a leading zero, so that 31 December 2016 with
  option 3 (tomorrow) gives \<^verbatim>\<open>1 Jan 2017\<close>. It does not: the format of all three command lines
  is \<^verbatim>\<open>%d %b %Y\<close>, and \<^verbatim>\<open>%d\<close> is the day of the month as two digits.
\<close>

theorem day_without_padding_counterexample:
  "clipboard (final_state (copy_date \<lparr>year = 2016, month = 12, day = 31\<rparr> 3 (init_app []))) \<noteq>
     ''1 Jan 2017''"
  by code_simp

text \<open>
  C2, amended: for every valid option on a valid date the copied string begins (after the
  optional leading blank) with the day of the month of the target date as exactly two
  digits, tens first, a zero when the day is below ten, followed by a blank. From
  31 December 2016 option 3 gives \<^verbatim>\<open>01 Jan 2017\<close>, and from 1 January 2017 option 1 gives
  \<^verbatim>\<open>31 Dec 2016\<close>.
\<close>

theorem day_is_zero_padded:
  "(valid_date now \<and> option \<in> {1, 2, 3} \<longrightarrow>
     (\<exists>rest. clipboard (final_state (copy_date now option st)) =
        padded (leading_check st) (trailing_check st)
          ([digit_char (day (target_date now option) div 10),
            digit_char (day (target_date now option) mod 10), CHR '' ''] @ rest))) \<and>
   clipboard (final_state (copy_date \<lparr>year = 2016, month = 12, day = 31\<rparr> 3 (init_app []))) =
     ''01 Jan 2017'' \<and>
   clipboard (final_state (copy_date \<lparr>year = 2017, month = 1, day = 1\<rparr> 1 (init_app []))) =
     ''31 Dec 2016''"
proof -
  have a: "valid_date now \<and> option \<in> {1, 2, 3} \<longrightarrow>
     (\<exists>rest. clipboard (final_state (copy_date now option st)) =
        padded (leading_check st) (trailing_check st)
          ([digit_char (day (target_date now option) div 10),
            digit_char (day (target_date now option) mod 10), CHR '' ''] @ rest))"
  proof
    assume h: "valid_date now \<and> option \<in> {1, 2, 3}"
    then have v: "valid_date (target_date now option)" by (simp add: valid_target_date)
    then have "day (target_date now option) < 100" by (rule valid_date_day_less)
    then have "format_date (target_date now option) =
        [digit_char (day (target_date now option) div 10),
         digit_char (day (target_date now option) mod 10), CHR '' '']
           @ month_abbr (month (target_date now option)) @ '' '' @
             conv_year (year (target_date now option))"
      by (rule format_date_day)
    moreover from h have "clipboard (final_state (copy_date now option st)) =
        padded (leading_check st) (trailing_check st) (format_date (target_date now option))"
      by (simp add: clipboard_copy_date)
    ultimately show "\<exists>rest. clipboard (final_state (copy_date now option st)) =
        padded (leading_check st) (trailing_check st)
          ([digit_char (day (target_date now option) div 10),
            digit_char (day (target_date now option) mod 10), CHR '' ''] @ rest)"
      by (simp only:) blast
  qed
  have b: "clipboard (final_state (copy_date \<lparr>year = 2016, month = 12, day = 31\<rparr> 3 (init_app []))) =
     ''01 Jan 2017''" by code_simp
  have c: "clipboard (final_state (copy_date \<lparr>year = 2017, month = 1, day = 1\<rparr> 1 (init_app []))) =
     ''31 Dec 2016''" by code_simp
  from a b c show ?thesis by (simp only: simp_thms)
qed

theorem day_is_zero_padded_witness:
  "valid_date \<lparr>year = 2016, month = 12, day = 31\<rparr> \<and> (3::int) \<in> {1, 2, 3} \<and>
   (\<exists>rest. clipboard (final_state (copy_date \<lparr>year = 2016, month = 12, day = 31\<rparr> 3 (init_app []))) =
        CHR ''0'' # CHR ''1'' # CHR '' '' # rest)"
proof -
  have v: "valid_date \<lparr>year = 2016, month = 12, day = 31\<rparr>" by code_simp
  have t: "day (target_date \<lparr>year = 2016, month = 12, day = 31\<rparr> 3) = 1" by code_simp
  have l: "leading_check (init_app []) = False" "trailing_check (init_app []) = False"
    by (simp_all add: init_app_def)
  show ?thesis
    using day_is_zero_padded [of "\<lparr>year = 2016, month = 12, day = 31\<rparr>" 3 "init_app []"] v t l
    by (simp add: padded_def digit_char_def)
qed

text \<open>
  C3, as stated, ends with: from 28 February 2019, option 3 gives \<^verbatim>\<open>1 Mar 2019\<close>. The date
  is right and the text is not: the day is printed as two digits.
\<close>

theorem leap_year_rollover_counterexample:
  "clipboard (final_state (copy_date \<lparr>year = 2019, month = 2, day = 28\<rparr> 3 (init_app []))) \<noteq>
     ''1 Mar 2019''"
  by code_simp

text \<open>
  C3, amended: for every valid option (1, 2, 3 for the offsets -1, 0, +1) on a valid date,
  the copied string is the formatted target date, the target date is a date of the calendar,
  and its day number is the day number of the current date plus the offset; so the step
  rolls over the ends of months and years, leap years included. 31 December 2016 plus one
  day is 1 January 2017; from 28 February 2016 option 3 gives \<^verbatim>\<open>29 Feb 2016\<close>, and from
  28 February 2019 it gives \<^verbatim>\<open>01 Mar 2019\<close>.
\<close>

theorem target_date_is_calendar_arithmetic:
  "(valid_date now \<and> option \<in> {1, 2, 3} \<longrightarrow>
      clipboard (final_state (copy_date now option st)) =
        padded (leading_check st) (trailing_check st) (format_date (target_date now option))
      \<and> valid_date (target_date now option)
      \<and> day_number (target_date now option) = day_number now + (option - 2)) \<and>
   target_date \<lparr>year = 2016, month = 12, day = 31\<rparr> 3 = \<lparr>year = 2017, month = 1, day = 1\<rparr> \<and>
   clipboard (final_state (copy_date \<lparr>year = 2016, month = 2, day = 28\<rparr> 3 (init_app []))) =
     ''29 Feb 2016'' \<and>
   clipboard (final_state (copy_date \<lparr>year = 2019, month = 2, day = 28\<rparr> 3 (init_app []))) =
     ''01 Mar 2019''"
proof -
  have a: "valid_date now \<and> option \<in> {1, 2, 3} \<longrightarrow>
      clipboard (final_state (copy_date now option st)) =
        padded (leading_check st) (trailing_check st) (format_date (target_date now option))
      \<and> valid_date (target_date now option)
      \<and> day_number (target_date now option) = day_number now + (option - 2)"
    by (simp add: clipboard_copy_date valid_target_date day_number_target_date)
  have b: "target_date \<lparr>year = 2016, month = 12, day = 31\<rparr> 3 = \<lparr>year = 2017, month = 1, day = 1\<rparr>"
    by code_simp
  have c: "clipboard (final_state (copy_date \<lparr>year = 2016, month = 2, day = 28\<rparr> 3 (init_app []))) =
     ''29 Feb 2016''" by code_simp
  have d: "clipboard (final_state (copy_date \<lparr>year = 2019, month = 2, day = 28\<rparr> 3 (init_app []))) =
     ''01 Mar 2019''" by code_simp
  from a b c d show ?thesis by (simp only: simp_thms)
qed

theorem target_date_is_calendar_arithmetic_witness:
  "valid_date \<lparr>year = 2016, month = 2, day = 28\<rparr> \<and> (3::int) \<in> {1, 2, 3} \<and>
   valid_date (target_date \<lparr>year = 2016, month = 2, day = 28\<rparr> 3) \<and>
   day_number (target_date \<lparr>year = 2016, month = 2, day = 28\<rparr> 3) =
     day_number \<lparr>year = 2016, month = 2, day = 28\<rparr> + 1"
proof -
  have v: "valid_date \<lparr>year = 2016, month = 2, day = 28\<rparr>" by code_simp
  show ?thesis
    using target_date_is_calendar_arithmetic
      [of "\<lparr>year = 2016, month = 2, day = 28\<rparr>" 3 "init_app []"] v
    by simp
qed

end
